theory Spec2Isabelle
  imports Main "HOL-Library.AList"
begin

section \<open>Variable spaces of regression tests (reframe/core/variables.py)\<close>

subsection \<open>Python values, errors and the TestVar class\<close>

text \<open>
  Python objects are values of an arbitrary type \<open>'v\<close>, extended with the module's
  private singleton \<^verbatim>\<open>_Undefined = _UndefinedType()\<close>, which flags a variable
  without a default value.
\<close>

datatype 'v pyobj = Undefined | Obj 'v

text \<open>
  Every error raised in variables.py is a \<^verbatim>\<open>ValueError\<close>; the raise sites differ
  in their message only. There is one constructor per raise site, carrying the values
  formatted into the message:
  \<^item> \<open>InvalidFieldTypeError\<close>: "field ... is not derived from Field" (TestVar.__init__);
  \<^item> \<open>DuplicateDeclarationError key qualname\<close>: "variable key is declared in more than
    one of the parent classes of class qualname" (VarSpace.join);
  \<^item> \<open>RedeclarationError key\<close>: "cannot redeclare a variable (key)" (VarSpace.extend);
  \<^item> \<open>MultipleActionsError key\<close>: "cannot specify more than one action on variable
    key in the same class" (VarSpace.extend);
  \<^item> \<open>UndeclaredVariableError key\<close>: "variable key has not been declared"
    (VarSpace._check_var_is_declared);
  \<^item> \<open>NameClashError key qualname\<close>: "key already defined in class qualname"
    (VarSpace.sanity).
  \<open>KeyError\<close> is what the subscript \<^verbatim>\<open>self.vars[key]\<close> raises on a missing key, and
  \<open>FieldError\<close> stands for whatever the field classes of reframe.core.fields raise.
\<close>

datatype error =
    InvalidFieldTypeError
  | DuplicateDeclarationError string string
  | RedeclarationError string
  | MultipleActionsError string
  | UndeclaredVariableError string
  | NameClashError string string
  | KeyError string
  | FieldError string

text \<open>
  An instance of \<^verbatim>\<open>TestVar\<close>. The attribute \<open>name\<close> does not exist before
  \<^verbatim>\<open>__set_name__\<close> has run.
\<close>

record 'v TestVar =
  field_type :: "'v pyobj"
  default_value :: "'v pyobj"
  args :: "'v pyobj list"
  kwargs :: "(string \<times> 'v pyobj) list"
  name :: "string option"

text \<open>
  \<^verbatim>\<open>TestVar.__init__(self, *args, **kwargs)\<close>. The keyword arguments \<^verbatim>\<open>field\<close> and
  \<^verbatim>\<open>value\<close> are popped from \<open>kwargs\<close>, with the defaults \<^verbatim>\<open>fields.TypedField\<close> and
  \<^verbatim>\<open>_Undefined\<close>. The module reframe.core.fields is a separate module:
  its class \<open>TypedField\<close> and the test \<^verbatim>\<open>issubclass(_, fields.Field)\<close> are the
  parameters \<open>TypedField\<close> and \<open>is_Field\<close>.
\<close>

definition pop :: "(string \<times> 'a) list \<Rightarrow> string \<Rightarrow> 'a \<Rightarrow> 'a \<times> (string \<times> 'a) list" where
  "pop kw k d = (case map_of kw k of None \<Rightarrow> (d, kw) | Some v \<Rightarrow> (v, AList.delete k kw))"

definition TestVar_init ::
  "('v pyobj \<Rightarrow> bool) \<Rightarrow> 'v pyobj \<Rightarrow> 'v pyobj list \<Rightarrow> (string \<times> 'v pyobj) list \<Rightarrow> error + 'v TestVar"
where
  "TestVar_init is_Field TypedField as kw =
     (let (ft, kw1) = pop kw ''field'' TypedField;
          (dv, kw2) = pop kw1 ''value'' Undefined
      in if \<not> is_Field ft then Inl InvalidFieldTypeError
         else Inr \<lparr>field_type = ft, default_value = dv, args = as, kwargs = kw2, name = None\<rparr>)"

definition is_defined :: "'v TestVar \<Rightarrow> bool" where
  "is_defined self = (default_value self \<noteq> Undefined)"

definition undefine :: "'v TestVar \<Rightarrow> 'v TestVar" where
  "undefine self = self\<lparr>default_value := Undefined\<rparr>"

definition define_var :: "'v pyobj \<Rightarrow> 'v TestVar \<Rightarrow> 'v TestVar" where
  "define_var v self = self\<lparr>default_value := v\<rparr>"

definition set_name :: "string \<Rightarrow> 'v TestVar \<Rightarrow> 'v TestVar" where
  "set_name n self = self\<lparr>name := Some n\<rparr>"

subsection \<open>Objects, classes and the VarSpace\<close>

text \<open>
  TestVar instances are mutable objects, and \<^verbatim>\<open>join\<close> and \<^verbatim>\<open>extend\<close> store
  references to them: the store maps the address of a TestVar object to its current
  attributes, and a namespace maps a variable's name to an address.
\<close>

type_synonym addr = nat

type_synonym 'v heap = "addr \<Rightarrow> 'v TestVar"

text \<open>
  An entry of the local variable space of a class body is an instance of a subclass of
  \<^verbatim>\<open>VarDirective\<close>: a (reference to a) TestVar, a \<^verbatim>\<open>DefineVar(default_value)\<close> or
  an \<^verbatim>\<open>UndefineVar()\<close>, whose \<^verbatim>\<open>default_value\<close> is \<^verbatim>\<open>_Undefined\<close>.
\<close>

datatype 'v VarDirective = TestVarRef addr | DefineVar "'v pyobj" | UndefineVar

fun directive_default_value :: "'v heap \<Rightarrow> 'v VarDirective \<Rightarrow> 'v pyobj" where
  "directive_default_value h (TestVarRef a) = default_value (h a)"
| "directive_default_value h (DefineVar v) = v"
| "directive_default_value h UndefineVar = Undefined"

text \<open>
  A Python dict keeps its keys in insertion order: it is an association list with
  distinct keys. \<^verbatim>\<open>key in d\<close> is \<open>contains\<close>, \<^verbatim>\<open>d[key] = v\<close> is
  \<^const>\<open>AList.update\<close> (a new key goes to the end, an old key keeps its place), and
  \<^verbatim>\<open>d[key]\<close> is \<^const>\<open>map_of\<close>.
\<close>

definition contains :: "(string \<times> 'a) list \<Rightarrow> string \<Rightarrow> bool" where
  "contains d key = (key \<in> set (map fst d))"

text \<open>
  What the methods read of the target class \<^verbatim>\<open>cls\<close>: \<^verbatim>\<open>cls.__qualname__\<close>,
  \<^verbatim>\<open>cls.__dict__\<close>, \<^verbatim>\<open>dir(cls)\<close> and the attribute \<^verbatim>\<open>_rfm_local_var_space\<close>;
  and of the test object \<^verbatim>\<open>obj\<close>: its attributes.
\<close>

record 'v pyclass =
  qualname :: string
  cls_dict :: "(string \<times> 'v pyobj) list"
  cls_dir :: "string list"
  rfm_local_var_space :: "(string \<times> 'v VarDirective) list"

record 'v pyinstance =
  obj_dict :: "(string \<times> 'v pyobj) list"

text \<open>
  A VarSpace: \<^verbatim>\<open>self._namespace\<close> (the property \<^verbatim>\<open>vars\<close>) and
  \<^verbatim>\<open>self._injected_vars\<close>.
\<close>

record VarSpace =
  vars :: "(string \<times> addr) list"
  injected_vars :: "string set"

text \<open>\<^verbatim>\<open>VarSpace()\<close> with no target class: an empty namespace, nothing injected.\<close>

definition VarSpace_empty :: VarSpace where
  "VarSpace_empty = \<lparr>vars = [], injected_vars = {}\<rparr>"

text \<open>
  Modelled from the spec: the field classes of the separate module
  reframe.core.fields. The spec describes them as a construction contract
  \<^verbatim>\<open>fieldFactory(*constructorArgs) -> Slot\<close> and a slot that "supports bind-to-owner-by-name
  and validated get/set", "validates on every write and rejects wrong types":
  \<^item> \<open>Field_new\<close> is the call \<^verbatim>\<open>var.field_type(*var.args, **var.kwargs)\<close>, which returns
    the new descriptor or raises;
  \<^item> \<open>Field_set_name fld obj name\<close> is the call
    \<^verbatim>\<open>getattr(cls, name).__set_name__(obj, name)\<close> on the descriptor \<open>fld\<close> that has just
    been stored in the class under \<open>name\<close>: it raises, or it returns and leaves the
    descriptor bound to the name (the descriptor as it is then);
  \<^item> \<open>Field_validate\<close> is the check of a written value by the bound descriptor, \<open>None\<close>
    when it accepts the value. An accepted value is stored in the object under the name
    the descriptor was bound to.
\<close>

record 'v Field =
  Field_new :: "'v pyobj \<Rightarrow> 'v pyobj list \<Rightarrow> (string \<times> 'v pyobj) list \<Rightarrow> error + 'v pyobj"
  Field_set_name :: "'v pyobj \<Rightarrow> 'v pyinstance \<Rightarrow> string \<Rightarrow> error + 'v pyobj"
  Field_validate :: "'v pyobj \<Rightarrow> 'v pyobj \<Rightarrow> error option"

text \<open>
  A method that raises leaves the objects as they are at the raise: the result of a
  mutating method is \<open>Inr\<close> of the state at its return, or \<open>Inl\<close> of the error and
  the state at the raise.
\<close>

subsection \<open>VarSpace.join\<close>

fun join_items :: "(string \<times> addr) list \<Rightarrow> string \<Rightarrow> VarSpace \<Rightarrow> (error \<times> VarSpace) + VarSpace" where
  "join_items [] qn self = Inr self"
| "join_items ((key, var) # rest) qn self =
     (if contains (vars self) key then Inl (DuplicateDeclarationError key qn, self)
      else join_items rest qn (self\<lparr>vars := AList.update key var (vars self)\<rparr>))"

definition join :: "VarSpace \<Rightarrow> VarSpace \<Rightarrow> 'v pyclass \<Rightarrow> (error \<times> VarSpace) + VarSpace" where
  "join self other cls =
     (case join_items (vars other) (qualname cls) self of
        Inl e \<Rightarrow> Inl e
      | Inr self' \<Rightarrow> Inr (self'\<lparr>injected_vars := injected_vars self' \<union> injected_vars other\<rparr>))"

subsection \<open>VarSpace.extend\<close>

definition check_var_is_declared :: "VarSpace \<Rightarrow> string \<Rightarrow> error + unit" where
  "check_var_is_declared self key =
     (if \<not> contains (vars self) key then Inl (UndeclaredVariableError key) else Inr ())"

text \<open>\<^verbatim>\<open>self.vars[key].define(value)\<close>: the object the name refers to is updated in place.\<close>

definition define_at :: "VarSpace \<Rightarrow> string \<Rightarrow> 'v pyobj \<Rightarrow> 'v heap \<Rightarrow> error + 'v heap" where
  "define_at self key v h =
     (case map_of (vars self) key of
        None \<Rightarrow> Inl (KeyError key)
      | Some a \<Rightarrow> Inr (h(a := define_var v (h a))))"

definition check_and_define ::
  "string \<Rightarrow> 'v pyobj \<Rightarrow> VarSpace \<times> 'v heap \<Rightarrow> (error \<times> VarSpace \<times> 'v heap) + VarSpace \<times> 'v heap"
where
  "check_and_define key v st =
     (case check_var_is_declared (fst st) key of
        Inl e \<Rightarrow> Inl (e, st)
      | Inr _ \<Rightarrow>
          (case define_at (fst st) key v (snd st) of
             Inl e \<Rightarrow> Inl (e, st)
           | Inr h' \<Rightarrow> Inr (fst st, h')))"

text \<open>The first loop, over \<^verbatim>\<open>local_varspace.items()\<close>.\<close>

fun extend_local ::
  "(string \<times> 'v VarDirective) list \<Rightarrow> VarSpace \<times> 'v heap \<Rightarrow>
     (error \<times> VarSpace \<times> 'v heap) + VarSpace \<times> 'v heap"
where
  "extend_local [] st = Inr st"
| "extend_local ((key, TestVarRef a) # rest) (self, h) =
     (if contains (vars self) key then Inl (RedeclarationError key, (self, h))
      else extend_local rest (self\<lparr>vars := AList.update key a (vars self)\<rparr>, h))"
| "extend_local ((key, var) # rest) (self, h) =
     (case check_and_define key (directive_default_value h var) (self, h) of
        Inl e \<Rightarrow> Inl e
      | Inr st' \<Rightarrow> extend_local rest st')"

text \<open>The second loop, over \<^verbatim>\<open>cls.__dict__.items()\<close>.\<close>

fun extend_class_dict ::
  "(string \<times> 'v VarDirective) list \<Rightarrow> (string \<times> 'v pyobj) list \<Rightarrow> VarSpace \<times> 'v heap \<Rightarrow>
     (error \<times> VarSpace \<times> 'v heap) + VarSpace \<times> 'v heap"
where
  "extend_class_dict local_varspace [] st = Inr st"
| "extend_class_dict local_varspace ((key, v) # rest) (self, h) =
     (if contains local_varspace key then Inl (MultipleActionsError key, (self, h))
      else if contains (vars self) key then
        (case check_and_define key v (self, h) of
           Inl e \<Rightarrow> Inl e
         | Inr st' \<Rightarrow> extend_class_dict local_varspace rest st')
      else extend_class_dict local_varspace rest (self, h))"

definition extend ::
  "VarSpace \<Rightarrow> 'v pyclass \<Rightarrow> 'v heap \<Rightarrow> (error \<times> VarSpace \<times> 'v heap) + VarSpace \<times> 'v heap"
where
  "extend self cls h =
     (let local_varspace = rfm_local_var_space cls
      in case extend_local local_varspace (self, h) of
           Inl e \<Rightarrow> Inl e
         | Inr st \<Rightarrow> extend_class_dict local_varspace (cls_dict cls) st)"

subsection \<open>VarSpace.sanity\<close>

fun sanity_keys :: "string list \<Rightarrow> string set \<Rightarrow> string set \<Rightarrow> string \<Rightarrow> error + unit" where
  "sanity_keys [] illegal_names injected qn = Inr ()"
| "sanity_keys (key # rest) illegal_names injected qn =
     (if key \<in> illegal_names \<and> key \<notin> injected then Inl (NameClashError key qn)
      else sanity_keys rest illegal_names injected qn)"

text \<open>\<^verbatim>\<open>if illegal_names is None: illegal_names = set(dir(cls))\<close>\<close>

definition default_illegal_names :: "'v pyclass \<Rightarrow> string set option \<Rightarrow> string set" where
  "default_illegal_names cls illegal_names =
     (case illegal_names of None \<Rightarrow> set (cls_dir cls) | Some s \<Rightarrow> s)"

definition sanity :: "VarSpace \<Rightarrow> 'v pyclass \<Rightarrow> string set option \<Rightarrow> error + unit" where
  "sanity self cls illegal_names =
     sanity_keys (map fst (vars self)) (default_illegal_names cls illegal_names)
       (injected_vars self) (qualname cls)"

subsection \<open>VarSpace.inject\<close>

text \<open>\<^verbatim>\<open>setattr(cls, name, value)\<close>: the name becomes a member of the class.\<close>

definition setattr_cls :: "'v pyclass \<Rightarrow> string \<Rightarrow> 'v pyobj \<Rightarrow> 'v pyclass" where
  "setattr_cls cls n v =
     cls\<lparr>cls_dict := AList.update n v (cls_dict cls),
         cls_dir := (if n \<in> set (cls_dir cls) then cls_dir cls else cls_dir cls @ [n])\<rparr>"

text \<open>
  The descriptor stored in the class under \<open>name\<close> is a mutable object: once
  \<^verbatim>\<open>__set_name__\<close> has returned, the class holds it in its bound state, at the same
  place.
\<close>

definition set_name_cls :: "'v pyclass \<Rightarrow> string \<Rightarrow> 'v pyobj \<Rightarrow> 'v pyclass" where
  "set_name_cls cls n fld = cls\<lparr>cls_dict := AList.update n fld (cls_dict cls)\<rparr>"

text \<open>
  \<^verbatim>\<open>setattr(obj, name, value)\<close> where the class of \<open>obj\<close> holds the descriptor
  \<open>fld\<close> under \<open>name\<close>.
\<close>

definition setattr_obj ::
  "'v Field \<Rightarrow> 'v pyobj \<Rightarrow> 'v pyinstance \<Rightarrow> string \<Rightarrow> 'v pyobj \<Rightarrow> error + 'v pyinstance"
where
  "setattr_obj F fld obj n v =
     (case Field_validate F fld v of
        Some e \<Rightarrow> Inl e
      | None \<Rightarrow> Inr (obj\<lparr>obj_dict := AList.update n v (obj_dict obj)\<rparr>))"

type_synonym 'v inject_state = "VarSpace \<times> 'v pyinstance \<times> 'v pyclass"

text \<open>
  The loop over \<^verbatim>\<open>self.items()\<close>. Each of its three calls into the field classes can
  raise: the construction of the descriptor (before anything is bound), the call of
  \<^verbatim>\<open>__set_name__\<close> (the descriptor is in the class, unbound) and the write of the
  default value (the descriptor is bound); the name is recorded as injected only after
  all three.
\<close>

fun inject_items ::
  "'v Field \<Rightarrow> 'v heap \<Rightarrow> (string \<times> addr) list \<Rightarrow> 'v inject_state \<Rightarrow>
     (error \<times> 'v inject_state) + 'v inject_state"
where
  "inject_items F h [] st = Inr st"
| "inject_items F h ((n, var) # rest) (self, obj, cls) =
     (case Field_new F (field_type (h var)) (args (h var)) (kwargs (h var)) of
        Inl e \<Rightarrow> Inl (e, (self, obj, cls))
      | Inr fld \<Rightarrow>
          (let cls1 = setattr_cls cls n fld
           in case Field_set_name F fld obj n of
                Inl e \<Rightarrow> Inl (e, (self, obj, cls1))
              | Inr fld' \<Rightarrow>
                  (let cls' = set_name_cls cls1 n fld'
                   in if is_defined (h var) then
                        (case setattr_obj F fld' obj n (default_value (h var)) of
                           Inl e \<Rightarrow> Inl (e, (self, obj, cls'))
                         | Inr obj' \<Rightarrow>
                             inject_items F h rest
                               (self\<lparr>injected_vars := insert n (injected_vars self)\<rparr>, obj', cls'))
                      else
                        inject_items F h rest
                          (self\<lparr>injected_vars := insert n (injected_vars self)\<rparr>, obj, cls'))))"

definition inject ::
  "'v Field \<Rightarrow> 'v heap \<Rightarrow> VarSpace \<Rightarrow> 'v pyinstance \<Rightarrow> 'v pyclass \<Rightarrow>
     (error \<times> 'v inject_state) + 'v inject_state"
where
  "inject F h self obj cls = inject_items F h (vars self) (self, obj, cls)"

subsection \<open>Reading a variable space\<close>

text \<open>
  \<^verbatim>\<open>self.items()\<close> in store \<open>h\<close>: each name with the attributes its variable has now.
\<close>

definition items :: "'v heap \<Rightarrow> VarSpace \<Rightarrow> (string \<times> 'v TestVar) list" where
  "items h self = map (\<lambda>(key, a). (key, h a)) (vars self)"

subsection \<open>Example objects\<close>

text \<open>
  Concrete values, with Python objects numbered by integers: a store in which every
  address holds a TestVar of field type \<open>Obj 0\<close> and default value \<open>1\<close>, a class
  without variables, and two variable spaces with one variable each.
\<close>

definition var0 :: "int TestVar" where
  "var0 = \<lparr>field_type = Obj 0, default_value = Obj 1, args = [], kwargs = [], name = None\<rparr>"

definition heap0 :: "int heap" where
  "heap0 = (\<lambda>a. var0)"

definition cls_T :: "int pyclass" where
  "cls_T = \<lparr>qualname = ''T'', cls_dict = [], cls_dir = [], rfm_local_var_space = []\<rparr>"

definition space_x :: VarSpace where
  "space_x = \<lparr>vars = [(''x'', 0)], injected_vars = {''x''}\<rparr>"

definition space_y :: VarSpace where
  "space_y = \<lparr>vars = [(''y'', 1)], injected_vars = {}\<rparr>"

text \<open>
  Classes Base, Child and Leaf: Base declares \<open>x\<close> (the TestVar at address 0), Child
  has the entry \<^verbatim>\<open>DefineVar(2)\<close> for \<open>x\<close>, Leaf the entry \<^verbatim>\<open>UndefineVar()\<close>; and
  the variable space of Base. The other classes have a declaration and a plain
  assignment of the same name, a DefineVar and a plain assignment of an undeclared
  name, an UndefineVar and a plain assignment of the same name, and a plain attribute
  only.
\<close>

definition cls_Base :: "int pyclass" where
  "cls_Base = \<lparr>qualname = ''Base'', cls_dict = [], cls_dir = [],
     rfm_local_var_space = [(''x'', TestVarRef 0)]\<rparr>"

definition cls_Child :: "int pyclass" where
  "cls_Child = \<lparr>qualname = ''Child'', cls_dict = [], cls_dir = [],
     rfm_local_var_space = [(''x'', DefineVar (Obj 2))]\<rparr>"

definition cls_Leaf :: "int pyclass" where
  "cls_Leaf = \<lparr>qualname = ''Leaf'', cls_dict = [], cls_dir = [],
     rfm_local_var_space = [(''x'', UndefineVar)]\<rparr>"

definition space_Base :: VarSpace where
  "space_Base = \<lparr>vars = [(''x'', 0)], injected_vars = {}\<rparr>"

definition cls_declare_assign :: "int pyclass" where
  "cls_declare_assign = \<lparr>qualname = ''T'', cls_dict = [(''x'', Obj 5)], cls_dir = [],
     rfm_local_var_space = [(''x'', TestVarRef 0)]\<rparr>"

definition cls_define_undeclared :: "int pyclass" where
  "cls_define_undeclared = \<lparr>qualname = ''T'', cls_dict = [(''y'', Obj 3)], cls_dir = [],
     rfm_local_var_space = [(''y'', DefineVar (Obj 1))]\<rparr>"

definition cls_undefine_assign :: "int pyclass" where
  "cls_undefine_assign = \<lparr>qualname = ''T'', cls_dict = [(''x'', Obj 3)], cls_dir = [],
     rfm_local_var_space = [(''x'', UndefineVar)]\<rparr>"

definition cls_plain_attr :: "int pyclass" where
  "cls_plain_attr = \<lparr>qualname = ''T'', cls_dict = [(''y'', Obj 3)], cls_dir = [],
     rfm_local_var_space = []\<rparr>"

definition space_b :: VarSpace where
  "space_b = \<lparr>vars = [(''b'', 1)], injected_vars = {}\<rparr>"

definition space_ab :: VarSpace where
  "space_ab = \<lparr>vars = [(''a'', 0), (''b'', 2)], injected_vars = {}\<rparr>"

text \<open>
  A class that answers \<open>x\<close> and \<open>y\<close> to \<^verbatim>\<open>dir\<close>; the test \<^verbatim>\<open>issubclass\<close> that
  accepts the class \<open>Obj 0\<close> only; field classes whose call on the class \<open>Obj c\<close>
  returns the descriptor \<open>Obj (c + 100)\<close>, whose descriptor \<open>Obj d\<close> is \<open>Obj (d + 100)\<close>
  once bound, and whose descriptors accept the integers from \<open>0\<close> on; a store whose TestVar at address 1 has no default value, a variable space
  with \<open>x\<close> and \<open>y\<close> at the addresses 0 and 1, and a test object without attributes.
\<close>

definition cls_members :: "int pyclass" where
  "cls_members = \<lparr>qualname = ''T'', cls_dict = [], cls_dir = [''x'', ''y''],
     rfm_local_var_space = []\<rparr>"

definition is_Field0 :: "int pyobj \<Rightarrow> bool" where
  "is_Field0 c = (c = Obj 0)"

definition Field0 :: "int Field" where
  "Field0 = \<lparr>
     Field_new = (\<lambda>ft as kw. case ft of Undefined \<Rightarrow> Inl (FieldError ''not callable'')
                    | Obj c \<Rightarrow> Inr (Obj (c + 100))),
     Field_set_name = (\<lambda>fld obj n. case fld of Undefined \<Rightarrow> Inl (FieldError ''no __set_name__'')
                    | Obj d \<Rightarrow> Inr (Obj (d + 100))),
     Field_validate = (\<lambda>fld v. case v of Undefined \<Rightarrow> Some (FieldError ''wrong type'')
                    | Obj i \<Rightarrow> if 0 \<le> i then None else Some (FieldError ''wrong type''))\<rparr>"

definition heap01 :: "int heap" where
  "heap01 = heap0(1 := var0\<lparr>default_value := Undefined\<rparr>)"

definition space_xy :: VarSpace where
  "space_xy = \<lparr>vars = [(''x'', 0), (''y'', 1)], injected_vars = {}\<rparr>"

definition obj0 :: "int pyinstance" where
  "obj0 = \<lparr>obj_dict = []\<rparr>"



section \<open>Properties\<close>

subsection \<open>Dictionaries\<close>

lemma contains_Nil [simp]: "contains [] k = False"
  by (simp add: contains_def)

lemma contains_Cons [simp]: "contains (p # d) k = (fst p = k \<or> contains d k)"
  by (auto simp: contains_def)

lemma contains_append [simp]: "contains (d @ d') k = (contains d k \<or> contains d' k)"
  by (auto simp: contains_def)

lemma contains_map_of: "contains d k = (map_of d k \<noteq> None)"
  by (simp add: contains_def map_of_eq_None_iff)

lemma update_absent: "\<not> contains d k \<Longrightarrow> AList.update k v d = d @ [(k, v)]"
  by (induction d) (auto simp: contains_def)

lemma join_items_raise:
  "distinct (map fst (ys @ (k, v) # zs)) \<Longrightarrow>
   \<forall>p\<in>set ys. \<not> contains (vars self) (fst p) \<Longrightarrow>
   contains (vars self) k \<Longrightarrow>
   join_items (ys @ (k, v) # zs) qn self =
     Inl (DuplicateDeclarationError k qn, self\<lparr>vars := vars self @ ys\<rparr>)"
proof (induction ys arbitrary: self)
  case Nil
  then show ?case by simp
next
  case (Cons y ys)
  obtain key var where y: "y = (key, var)" by (cases y)
  let ?self' = "self\<lparr>vars := AList.update key var (vars self)\<rparr>"
  have absent: "\<not> contains (vars self) key"
    using Cons.prems(2) by (simp add: y)
  have v': "vars ?self' = vars self @ [(key, var)]"
    using absent by (simp add: update_absent)
  have "join_items (ys @ (k, v) # zs) qn ?self' =
          Inl (DuplicateDeclarationError k qn, ?self'\<lparr>vars := vars ?self' @ ys\<rparr>)"
    using Cons.prems by (intro Cons.IH) (auto simp: v' y)
  then show ?case
    using absent by (simp add: y v')
qed

lemma join_items_return:
  "distinct (map fst xs) \<Longrightarrow>
   \<forall>p\<in>set xs. \<not> contains (vars self) (fst p) \<Longrightarrow>
   join_items xs qn self = Inr (self\<lparr>vars := vars self @ xs\<rparr>)"
proof (induction xs arbitrary: self)
  case Nil
  then show ?case by simp
next
  case (Cons x xs)
  obtain key var where x: "x = (key, var)" by (cases x)
  let ?self' = "self\<lparr>vars := AList.update key var (vars self)\<rparr>"
  have absent: "\<not> contains (vars self) key"
    using Cons.prems(2) by (simp add: x)
  have v': "vars ?self' = vars self @ [(key, var)]"
    using absent by (simp add: update_absent)
  have "join_items xs qn ?self' = Inr (?self'\<lparr>vars := vars ?self' @ xs\<rparr>)"
    using Cons.prems by (intro Cons.IH) (auto simp: v' x)
  then show ?case
    using absent by (simp add: x v')
qed


subsection \<open>join\<close>

lemma join_return:
  assumes "distinct (map fst (vars other))"
    and "set (map fst (vars self)) \<inter> set (map fst (vars other)) = {}"
  shows "join self other cls =
           Inr \<lparr>vars = vars self @ vars other,
                injected_vars = injected_vars self \<union> injected_vars other\<rparr>"
proof -
  have "\<forall>p\<in>set (vars other). \<not> contains (vars self) (fst p)"
    using assms(2) by (auto simp: contains_def)
  then have "join_items (vars other) (qualname cls) self =
               Inr (self\<lparr>vars := vars self @ vars other\<rparr>)"
    using assms(1) by (rule join_items_return [rotated])
  then show ?thesis by (simp add: join_def)
qed

lemma join_raise:
  assumes "distinct (map fst (vars other))"
    and "set (map fst (vars self)) \<inter> set (map fst (vars other)) \<noteq> {}"
  shows "\<exists>k ys v zs. vars other = ys @ (k, v) # zs
           \<and> (\<forall>p\<in>set ys. \<not> contains (vars self) (fst p))
           \<and> contains (vars self) k
           \<and> join self other cls =
               Inl (DuplicateDeclarationError k (qualname cls), self\<lparr>vars := vars self @ ys\<rparr>)"
proof -
  from assms(2) obtain k0 where "k0 \<in> set (map fst (vars self))" "k0 \<in> set (map fst (vars other))"
    by blast
  then obtain p0 where "p0 \<in> set (vars other)" "fst p0 = k0" "contains (vars self) k0"
    by (auto simp: contains_def)
  then have "\<exists>p\<in>set (vars other). contains (vars self) (fst p)"
    by blast
  then obtain ys p zs where sp: "vars other = ys @ p # zs" "contains (vars self) (fst p)"
      "\<forall>q\<in>set ys. \<not> contains (vars self) (fst q)"
    using split_list_first_prop [of "vars other" "\<lambda>p. contains (vars self) (fst p)"] by blast
  obtain k v where p: "p = (k, v)" by (cases p)
  have "join_items (ys @ (k, v) # zs) (qualname cls) self =
          Inl (DuplicateDeclarationError k (qualname cls), self\<lparr>vars := vars self @ ys\<rparr>)"
    using assms(1) sp by (intro join_items_raise) (simp_all add: p)
  then have "join self other cls =
          Inl (DuplicateDeclarationError k (qualname cls), self\<lparr>vars := vars self @ ys\<rparr>)"
    by (simp add: join_def sp(1) p)
  moreover have "vars other = ys @ (k, v) # zs" "contains (vars self) k"
    using sp p by simp_all
  ultimately show ?thesis using sp(3)
    by (intro exI [of _ k] exI [of _ ys] exI [of _ v] exI [of _ zs]) simp
qed

text \<open>
  C5. For variable spaces A and B (dicts: their keys are distinct) that have a name in
  common, joining B into A raises the ValueError "variable k is declared in more than
  one of the parent classes of class Q", where k is a common name and Q the qualified
  name of the target class, and so does joining A into B. In particular a new, empty
  variable space that joins the two as the ancestors of one class fails at the second
  join, in either order.
\<close>

theorem C5_join_overlap_raises:
  assumes "distinct (map fst (vars A))" and "distinct (map fst (vars B))"
    and "set (map fst (vars A)) \<inter> set (map fst (vars B)) \<noteq> {}"
  shows "(\<exists>k st. join A B cls = Inl (DuplicateDeclarationError k (qualname cls), st)
            \<and> k \<in> set (map fst (vars A)) \<and> k \<in> set (map fst (vars B)))
       \<and> (\<exists>k st. join B A cls = Inl (DuplicateDeclarationError k (qualname cls), st)
            \<and> k \<in> set (map fst (vars A)) \<and> k \<in> set (map fst (vars B)))
       \<and> (\<exists>A' k st. join VarSpace_empty A cls = Inr A'
            \<and> join A' B cls = Inl (DuplicateDeclarationError k (qualname cls), st))
       \<and> (\<exists>B' k st. join VarSpace_empty B cls = Inr B'
            \<and> join B' A cls = Inl (DuplicateDeclarationError k (qualname cls), st))"
proof -
  have raise: "\<exists>k st. join X Y cls = Inl (DuplicateDeclarationError k (qualname cls), st)
            \<and> k \<in> set (map fst (vars X)) \<and> k \<in> set (map fst (vars Y))"
    if "distinct (map fst (vars Y))" "set (map fst (vars X)) \<inter> set (map fst (vars Y)) \<noteq> {}"
    for X Y :: VarSpace
  proof -
    from join_raise [OF that, of cls] obtain k ys v zs where
      "vars Y = ys @ (k, v) # zs" "contains (vars X) k"
      "join X Y cls = Inl (DuplicateDeclarationError k (qualname cls), X\<lparr>vars := vars X @ ys\<rparr>)"
      by blast
    then show ?thesis by (auto simp: contains_def)
  qed
  have start: "join VarSpace_empty X cls = Inr \<lparr>vars = vars X, injected_vars = injected_vars X\<rparr>"
    if "distinct (map fst (vars X))" for X :: VarSpace
    using join_return [of X VarSpace_empty cls] that by (simp add: VarSpace_empty_def)
  have ab: "\<exists>k st. join A B cls = Inl (DuplicateDeclarationError k (qualname cls), st)
            \<and> k \<in> set (map fst (vars A)) \<and> k \<in> set (map fst (vars B))"
    using assms by (intro raise) auto
  have ba: "\<exists>k st. join B A cls = Inl (DuplicateDeclarationError k (qualname cls), st)
            \<and> k \<in> set (map fst (vars B)) \<and> k \<in> set (map fst (vars A))"
    using assms by (intro raise) auto
  have ab': "\<exists>k st. join \<lparr>vars = vars A, injected_vars = injected_vars A\<rparr> B cls =
      Inl (DuplicateDeclarationError k (qualname cls), st)"
    using raise [of B "\<lparr>vars = vars A, injected_vars = injected_vars A\<rparr>"] assms by auto
  have ba': "\<exists>k st. join \<lparr>vars = vars B, injected_vars = injected_vars B\<rparr> A cls =
      Inl (DuplicateDeclarationError k (qualname cls), st)"
    using raise [of A "\<lparr>vars = vars B, injected_vars = injected_vars B\<rparr>"] assms by auto
  show ?thesis
    using ab ba ab' ba' start [OF assms(1)] start [OF assms(2)] by auto
qed


theorem C5_join_overlap_raises_witness:
  "join space_b space_ab cls_T =
     Inl (DuplicateDeclarationError ''b'' ''T'', space_b\<lparr>vars := [(''b'', 1), (''a'', 0)]\<rparr>)
   \<and> join space_ab space_b cls_T = Inl (DuplicateDeclarationError ''b'' ''T'', space_ab)"
proof -
  have "distinct (map fst (vars space_b))" "distinct (map fst (vars space_ab))"
    "set (map fst (vars space_b)) \<inter> set (map fst (vars space_ab)) \<noteq> {}"
    by (simp_all add: space_b_def space_ab_def)
  from C5_join_overlap_raises [OF this, of cls_T]
  have "\<exists>k st. join space_b space_ab cls_T = Inl (DuplicateDeclarationError k (qualname cls_T), st)"
    by blast
  then show ?thesis
    by (simp add: join_def space_b_def space_ab_def cls_T_def)
qed

text \<open>
  C10. For variable spaces A and B (dicts: their keys are distinct) whose sets of names
  are disjoint, joining B into A and joining A into B both return, with the same set of
  (name, variable) pairs, the same mapping of names to variables and the same set of
  injected names, the union of both; the orders of the entries differ: the entries of
  the space joined into come first.
\<close>

theorem C10_join_commutes:
  assumes "distinct (map fst (vars A))" and "distinct (map fst (vars B))"
    and "set (map fst (vars A)) \<inter> set (map fst (vars B)) = {}"
  shows "\<exists>AB BA. join A B cls = Inr AB \<and> join B A cls = Inr BA
           \<and> set (vars AB) = set (vars BA)
           \<and> map_of (vars AB) = map_of (vars BA)
           \<and> injected_vars AB = injected_vars A \<union> injected_vars B
           \<and> injected_vars BA = injected_vars A \<union> injected_vars B
           \<and> vars AB = vars A @ vars B \<and> vars BA = vars B @ vars A"
proof -
  have ab: "join A B cls = Inr \<lparr>vars = vars A @ vars B,
                injected_vars = injected_vars A \<union> injected_vars B\<rparr>"
    using assms by (intro join_return) auto
  have ba: "join B A cls = Inr \<lparr>vars = vars B @ vars A,
                injected_vars = injected_vars B \<union> injected_vars A\<rparr>"
    using assms by (intro join_return) auto
  have "dom (map_of (vars A)) \<inter> dom (map_of (vars B)) = {}"
    using assms(3) by (simp add: dom_map_of_conv_image_fst)
  then have "map_of (vars B) ++ map_of (vars A) = map_of (vars A) ++ map_of (vars B)"
    by (intro map_add_comm) auto
  then have "map_of (vars A @ vars B) = map_of (vars B @ vars A)"
    by simp
  then show ?thesis
    unfolding ab ba by (auto simp: Un_commute)
qed

theorem C10_join_commutes_witness:
  "join space_x space_y cls_T = Inr \<lparr>vars = [(''x'', 0), (''y'', 1)], injected_vars = {''x''}\<rparr>
   \<and> join space_y space_x cls_T = Inr \<lparr>vars = [(''y'', 1), (''x'', 0)], injected_vars = {''x''}\<rparr>"
proof -
  have "distinct (map fst (vars space_x))" "distinct (map fst (vars space_y))"
    "set (map fst (vars space_x)) \<inter> set (map fst (vars space_y)) = {}"
    by (simp_all add: space_x_def space_y_def)
  from C10_join_commutes [OF this, of cls_T]
  obtain AB BA where "join space_x space_y cls_T = Inr AB" "join space_y space_x cls_T = Inr BA"
    "vars AB = vars space_x @ vars space_y" "vars BA = vars space_y @ vars space_x"
    "injected_vars AB = injected_vars space_x \<union> injected_vars space_y"
    "injected_vars BA = injected_vars space_x \<union> injected_vars space_y"
    by blast
  then show ?thesis
    by (cases AB, cases BA) (simp add: space_x_def space_y_def)
qed

subsection \<open>extend\<close>

lemma check_and_define_eq:
  "check_and_define key v (self, h) =
     (case map_of (vars self) key of
        None \<Rightarrow> Inl (UndeclaredVariableError key, (self, h))
      | Some a \<Rightarrow> Inr (self, h(a := (h a)\<lparr>default_value := v\<rparr>)))"
  by (simp add: check_and_define_def check_var_is_declared_def define_at_def define_var_def
      contains_map_of split: option.splits)

lemma extend_local_Cons:
  "extend_local ((key, d) # rest) (self, h) =
     (case d of
        TestVarRef a \<Rightarrow>
          if contains (vars self) key then Inl (RedeclarationError key, (self, h))
          else extend_local rest (self\<lparr>vars := vars self @ [(key, a)]\<rparr>, h)
      | _ \<Rightarrow>
          (case map_of (vars self) key of
             None \<Rightarrow> Inl (UndeclaredVariableError key, (self, h))
           | Some a \<Rightarrow>
               extend_local rest (self, h(a := (h a)\<lparr>default_value := directive_default_value h d\<rparr>))))"
  by (cases d) (simp_all add: check_and_define_eq update_absent split: option.splits)

lemma extend_local_frame:
  "extend_local loc (self, h) = Inl (e, (self', h')) \<or> extend_local loc (self, h) = Inr (self', h') \<Longrightarrow>
   (\<exists>ys. vars self' = vars self @ ys \<and> set ys \<subseteq> {(k, a). (k, TestVarRef a) \<in> set loc})
   \<and> injected_vars self' = injected_vars self"
proof (induction loc arbitrary: self h)
  case Nil
  then show ?case by simp
next
  case (Cons p rest)
  obtain key d where p: "p = (key, d)" by (cases p)
  let ?goal = "(\<exists>ys. vars self' = vars self @ ys
      \<and> set ys \<subseteq> {(k, a). (k, TestVarRef a) \<in> set (p # rest)})
      \<and> injected_vars self' = injected_vars self"
  have declared: ?goal
    if d: "d = TestVarRef a" and absent: "\<not> contains (vars self) key" for a
  proof -
    let ?self1 = "self\<lparr>vars := vars self @ [(key, a)]\<rparr>"
    have "extend_local (p # rest) (self, h) = extend_local rest (?self1, h)"
      using absent by (simp add: p d extend_local_Cons del: extend_local.simps)
    with Cons.prems have "extend_local rest (?self1, h) = Inl (e, (self', h'))
        \<or> extend_local rest (?self1, h) = Inr (self', h')"
      by simp
    from Cons.IH [OF this] obtain ys where "vars self' = vars ?self1 @ ys"
      "set ys \<subseteq> {(k, a). (k, TestVarRef a) \<in> set rest}" "injected_vars self' = injected_vars ?self1"
      by blast
    then show ?thesis
      by (intro conjI exI [of _ "(key, a) # ys"]) (auto simp: p d)
  qed
  have defined: ?goal
    if nd: "\<forall>a. d \<noteq> TestVarRef a" and present: "map_of (vars self) key = Some a" for a
  proof -
    let ?h1 = "h(a := (h a)\<lparr>default_value := directive_default_value h d\<rparr>)"
    have "extend_local (p # rest) (self, h) = extend_local rest (self, ?h1)"
      using nd present by (cases d) (simp_all add: p extend_local_Cons del: extend_local.simps)
    with Cons.prems have "extend_local rest (self, ?h1) = Inl (e, (self', h'))
        \<or> extend_local rest (self, ?h1) = Inr (self', h')"
      by simp
    from Cons.IH [OF this] obtain ys where "vars self' = vars self @ ys"
      "set ys \<subseteq> {(k, a). (k, TestVarRef a) \<in> set rest}" "injected_vars self' = injected_vars self"
      by blast
    then show ?thesis
      by (intro conjI exI [of _ ys]) auto
  qed
  have raised: ?goal
    if "extend_local (p # rest) (self, h) = Inl (e0, (self, h))" for e0
    using that Cons.prems by auto
  show ?case
  proof (cases d)
    case (TestVarRef a)
    show ?thesis
    proof (cases "contains (vars self) key")
      case True
      then show ?thesis
        by (intro raised [of "RedeclarationError key"])
          (simp add: p TestVarRef extend_local_Cons del: extend_local.simps)
    next
      case False
      with TestVarRef show ?thesis by (rule declared)
    qed
  next
    case (DefineVar v)
    show ?thesis
    proof (cases "map_of (vars self) key")
      case None
      then show ?thesis
        by (intro raised [of "UndeclaredVariableError key"])
          (simp add: p DefineVar extend_local_Cons del: extend_local.simps)
    next
      case (Some a)
      with DefineVar show ?thesis by (intro defined [of a]) simp_all
    qed
  next
    case UndefineVar
    show ?thesis
    proof (cases "map_of (vars self) key")
      case None
      then show ?thesis
        by (intro raised [of "UndeclaredVariableError key"])
          (simp add: p UndefineVar extend_local_Cons del: extend_local.simps)
    next
      case (Some a)
      with UndefineVar show ?thesis by (intro defined [of a]) simp_all
    qed
  qed
qed

lemma extend_local_error:
  "extend_local loc (self, h) = Inl (e, st) \<Longrightarrow>
   \<exists>k. contains loc k \<and> (e = RedeclarationError k \<or> e = UndeclaredVariableError k)"
proof (induction loc arbitrary: self h)
  case Nil
  then show ?case by simp
next
  case (Cons p rest)
  obtain key d where p: "p = (key, d)" by (cases p)
  have later: "\<exists>k. contains (p # rest) k \<and> (e = RedeclarationError k \<or> e = UndeclaredVariableError k)"
    if "extend_local rest (self1, h1) = Inl (e, st)" for self1 h1
    using Cons.IH [OF that] by auto
  from Cons.prems show ?case
    unfolding p extend_local_Cons
    by (cases d; cases "map_of (vars self) key"; cases "contains (vars self) key")
      (auto simp: p dest: later)
qed

lemma extend_class_dict_Cons:
  "extend_class_dict loc ((key, v) # rest) (self, h) =
     (if contains loc key then Inl (MultipleActionsError key, (self, h))
      else case map_of (vars self) key of
             None \<Rightarrow> extend_class_dict loc rest (self, h)
           | Some a \<Rightarrow> extend_class_dict loc rest (self, h(a := (h a)\<lparr>default_value := v\<rparr>)))"
  by (cases "map_of (vars self) key") (simp_all add: check_and_define_eq contains_map_of)

lemma extend_class_dict_step:
  assumes "\<not> contains loc key"
  shows "\<exists>h'. extend_class_dict loc ((key, v) # d) (self, h) = extend_class_dict loc d (self, h')"
  using assms unfolding extend_class_dict_Cons by (cases "map_of (vars self) key") auto

lemma extend_class_dict_frame:
  "extend_class_dict loc d (self, h) = Inl (e, (self', h')) \<or> extend_class_dict loc d (self, h) = Inr (self', h') \<Longrightarrow>
   self' = self"
proof (induction d arbitrary: h)
  case Nil
  then show ?case by simp
next
  case (Cons p d)
  obtain key v where p: "p = (key, v)" by (cases p)
  show ?case
  proof (cases "contains loc key")
    case True
    with Cons.prems show ?thesis by (simp add: p)
  next
    case False
    from extend_class_dict_step [OF False] obtain h1 where
      step: "extend_class_dict loc (p # d) (self, h) = extend_class_dict loc d (self, h1)"
      unfolding p by blast
    from Cons.prems show ?thesis
      unfolding step by (rule Cons.IH)
  qed
qed

lemma extend_class_dict_error:
  "extend_class_dict loc d (self, h) = Inl (e, st) \<Longrightarrow>
   \<exists>k. contains loc k \<and> contains d k \<and> e = MultipleActionsError k"
proof (induction d arbitrary: h)
  case Nil
  then show ?case by simp
next
  case (Cons p d)
  obtain key v where p: "p = (key, v)" by (cases p)
  show ?case
  proof (cases "contains loc key")
    case True
    with Cons.prems show ?thesis by (auto simp: p)
  next
    case False
    from extend_class_dict_step [OF False] obtain h1 where
      step: "extend_class_dict loc (p # d) (self, h) = extend_class_dict loc d (self, h1)"
      unfolding p by blast
    from Cons.prems have "\<exists>k. contains loc k \<and> contains d k \<and> e = MultipleActionsError k"
      unfolding step by (rule Cons.IH)
    then show ?thesis by (auto simp: p)
  qed
qed

lemma extend_class_dict_raise:
  "\<exists>k. contains loc k \<and> contains d k \<Longrightarrow>
   \<exists>k st. extend_class_dict loc d (self, h) = Inl (MultipleActionsError k, st)
      \<and> contains loc k \<and> contains d k"
proof (induction d arbitrary: h)
  case Nil
  then show ?case by simp
next
  case (Cons p d)
  obtain key v where p: "p = (key, v)" by (cases p)
  show ?case
  proof (cases "contains loc key")
    case True
    then show ?thesis by (auto simp: p)
  next
    case False
    with Cons.prems have ex: "\<exists>k. contains loc k \<and> contains d k"
      by (auto simp: p)
    from extend_class_dict_step [OF False] obtain h1 where
      step: "extend_class_dict loc (p # d) (self, h) = extend_class_dict loc d (self, h1)"
      unfolding p by blast
    from Cons.IH [OF ex, of h1] obtain k st where
      "extend_class_dict loc d (self, h1) = Inl (MultipleActionsError k, st)"
      "contains loc k" "contains d k"
      by blast
    then show ?thesis
      unfolding step by (intro exI [of _ k] exI [of _ st]) simp
  qed
qed


text \<open>
  C9. When the loop of extend over the local variable space comes to a declaration (an
  entry that is a TestVar) whose name is already in the variable space, extend raises
  the ValueError "cannot redeclare a variable (key)", with the objects as they were;
  when the name is absent, the variable is inserted under that name, at the end, and
  the loop goes on. For a class whose local variable space starts with such a
  declaration, and for a class whose body is a single new declaration, this is the
  result of extend itself.
\<close>

theorem C9_declare:
  "(contains (vars self) key \<longrightarrow>
      extend_local ((key, TestVarRef a) # rest) (self, h) = Inl (RedeclarationError key, (self, h)))
   \<and> (\<not> contains (vars self) key \<longrightarrow>
      extend_local ((key, TestVarRef a) # rest) (self, h) =
        extend_local rest (self\<lparr>vars := vars self @ [(key, a)]\<rparr>, h))
   \<and> (contains (vars self) key \<longrightarrow> rfm_local_var_space cls = (key, TestVarRef a) # rest \<longrightarrow>
      extend self cls h = Inl (RedeclarationError key, (self, h)))
   \<and> (\<not> contains (vars self) key \<longrightarrow> rfm_local_var_space cls = [(key, TestVarRef a)] \<longrightarrow>
      cls_dict cls = [] \<longrightarrow>
      extend self cls h = Inr (self\<lparr>vars := vars self @ [(key, a)]\<rparr>, h))"
proof -
  have present: "extend_local ((key, TestVarRef a) # rest) (self, h) =
      Inl (RedeclarationError key, (self, h))"
    if "contains (vars self) key"
    using that by simp
  have absent: "extend_local ((key, TestVarRef a) # rest) (self, h) =
      extend_local rest (self\<lparr>vars := vars self @ [(key, a)]\<rparr>, h)"
    if "\<not> contains (vars self) key"
    using that by (simp add: update_absent)
  have whole_present: "extend self cls h = Inl (RedeclarationError key, (self, h))"
    if "contains (vars self) key" "rfm_local_var_space cls = (key, TestVarRef a) # rest"
    using present [OF that(1)] that(2) by (simp add: extend_def)
  have whole_absent: "extend self cls h = Inr (self\<lparr>vars := vars self @ [(key, a)]\<rparr>, h)"
    if "\<not> contains (vars self) key" "rfm_local_var_space cls = [(key, TestVarRef a)]"
      "cls_dict cls = []"
    using that by (simp add: extend_def update_absent)
  from present absent whole_present whole_absent show ?thesis by blast
qed

theorem C9_declare_witness:
  "extend space_Base cls_Base heap0 = Inl (RedeclarationError ''x'', (space_Base, heap0))
   \<and> extend VarSpace_empty cls_Base heap0 = Inr (space_Base, heap0)"
  using C9_declare [of space_Base "''x''" 0 "[]" heap0 cls_Base]
    C9_declare [of VarSpace_empty "''x''" 0 "[]" heap0 cls_Base]
  by (simp add: space_Base_def cls_Base_def VarSpace_empty_def)

text \<open>
  C4 (amended). When the loop of extend over the local variable space comes to a
  DefineVar or an UndefineVar whose name is not in the variable space, extend raises
  the ValueError "variable key has not been declared", with the objects as they were;
  when the name is present, only the default value of the variable it refers to is
  changed (to the value given, or to \<open>Undefined\<close>), and the loop goes on. When the loop
  over the class dictionary comes to a plain assignment whose name is neither in the
  local variable space nor in the variable space, the entry is skipped without an
  error and without a change; when the name is absent from the local variable space
  and present in the variable space, only the default value of that variable is
  changed to the assigned value.
\<close>

theorem C4_define_undeclared_or_present:
  "(\<not> contains (vars self) key \<longrightarrow>
      extend_local ((key, DefineVar v) # rest) (self, h) = Inl (UndeclaredVariableError key, (self, h)))
   \<and> (\<not> contains (vars self) key \<longrightarrow>
      extend_local ((key, UndefineVar) # rest) (self, h) = Inl (UndeclaredVariableError key, (self, h)))
   \<and> (map_of (vars self) key = Some a \<longrightarrow>
      extend_local ((key, DefineVar v) # rest) (self, h) =
        extend_local rest (self, h(a := (h a)\<lparr>default_value := v\<rparr>)))
   \<and> (map_of (vars self) key = Some a \<longrightarrow>
      extend_local ((key, UndefineVar) # rest) (self, h) =
        extend_local rest (self, h(a := (h a)\<lparr>default_value := Undefined\<rparr>)))
   \<and> (\<not> contains loc key \<longrightarrow> \<not> contains (vars self) key \<longrightarrow>
      extend_class_dict loc ((key, v) # d) (self, h) = extend_class_dict loc d (self, h))
   \<and> (\<not> contains loc key \<longrightarrow> map_of (vars self) key = Some a \<longrightarrow>
      extend_class_dict loc ((key, v) # d) (self, h) =
        extend_class_dict loc d (self, h(a := (h a)\<lparr>default_value := v\<rparr>)))"
  by (simp add: check_and_define_eq extend_class_dict_Cons contains_map_of
      del: extend_class_dict.simps)

text \<open>
  A class body with the plain attribute \<open>y = 3\<close> and no variable of that name: extend
  returns, and nothing has changed.
\<close>

theorem C4_bare_assignment_counterexample:
  "extend VarSpace_empty cls_plain_attr heap0 = Inr (VarSpace_empty, heap0)"
  by (simp add: extend_def cls_plain_attr_def VarSpace_empty_def)

theorem C4_define_undeclared_or_present_witness:
  "extend VarSpace_empty cls_Child heap0 = Inl (UndeclaredVariableError ''x'', (VarSpace_empty, heap0))
   \<and> extend space_Base cls_Child heap0 = Inr (space_Base, heap0(0 := (heap0 0)\<lparr>default_value := Obj 2\<rparr>))
   \<and> extend space_Base cls_plain_attr heap0 = Inr (space_Base, heap0)"
  using C4_define_undeclared_or_present [of VarSpace_empty "''x''" "Obj 2" "[]" heap0]
    C4_define_undeclared_or_present [of space_Base "''x''" "Obj 2" "[]" heap0 0]
    C4_define_undeclared_or_present [where self = space_Base and key = "''y''" and h = heap0
      and loc = "[]" and v = "Obj 3" and d = "[]"]
  by (simp add: extend_def space_Base_def cls_Child_def cls_plain_attr_def VarSpace_empty_def)


text \<open>
  C2 (amended). When a name has both an entry in the local variable space of a class
  body (a declaration, a DefineVar or an UndefineVar) and a plain assignment in that
  body, extend raises. If the loop over the local variable space returns, the error is
  the ValueError "cannot specify more than one action on variable k in the same class"
  for a name k with both; otherwise extend raises what that loop raises, the
  redeclaration or the undeclared-variable error of an entry of the local variable
  space. A variable declared in the same body is no exception.
\<close>

theorem C2_multiple_actions:
  assumes "contains (rfm_local_var_space cls) k" and "contains (cls_dict cls) k"
  shows "(\<exists>e st. extend self cls h = Inl (e, st))
       \<and> (\<forall>st1. extend_local (rfm_local_var_space cls) (self, h) = Inr st1 \<longrightarrow>
            (\<exists>k' st. extend self cls h = Inl (MultipleActionsError k', st)
               \<and> contains (rfm_local_var_space cls) k' \<and> contains (cls_dict cls) k'))
       \<and> (\<forall>e st1. extend_local (rfm_local_var_space cls) (self, h) = Inl (e, st1) \<longrightarrow>
            extend self cls h = Inl (e, st1)
            \<and> (\<exists>k'. e = RedeclarationError k' \<or> e = UndeclaredVariableError k'))"
proof -
  let ?loc = "rfm_local_var_space cls"
  have second: "\<exists>k' st. extend self cls h = Inl (MultipleActionsError k', st)
               \<and> contains ?loc k' \<and> contains (cls_dict cls) k'"
    if "extend_local ?loc (self, h) = Inr st1" for st1
  proof -
    obtain self1 h1 where st1: "st1 = (self1, h1)" by (cases st1)
    from assms have "\<exists>k. contains ?loc k \<and> contains (cls_dict cls) k" by blast
    from extend_class_dict_raise [OF this, of self1 h1] that show ?thesis
      by (simp add: extend_def st1)
  qed
  have first: "extend self cls h = Inl (e, st1)
            \<and> (\<exists>k'. e = RedeclarationError k' \<or> e = UndeclaredVariableError k')"
    if "extend_local ?loc (self, h) = Inl (e, st1)" for e st1
    using that extend_local_error [OF that] by (auto simp: extend_def)
  have "\<exists>e st. extend self cls h = Inl (e, st)"
  proof (cases "extend_local ?loc (self, h)")
    case (Inl x)
    obtain e st1 where "x = (e, st1)" by (cases x)
    with Inl first [of e st1] show ?thesis by blast
  next
    case (Inr st1)
    then show ?thesis using second [of st1] by blast
  qed
  with first second show ?thesis by blast
qed

theorem C2_multiple_actions_witness:
  "extend space_Base cls_undefine_assign heap0 =
     Inl (MultipleActionsError ''x'', (space_Base, heap0(0 := (heap0 0)\<lparr>default_value := Undefined\<rparr>)))"
proof -
  have "contains (rfm_local_var_space cls_undefine_assign) ''x''"
    "contains (cls_dict cls_undefine_assign) ''x''"
    by (simp_all add: cls_undefine_assign_def)
  from C2_multiple_actions [OF this, of space_Base heap0]
  have "\<exists>k' st. extend space_Base cls_undefine_assign heap0 = Inl (MultipleActionsError k', st)
      \<and> contains (rfm_local_var_space cls_undefine_assign) k'"
    by (auto simp: cls_undefine_assign_def space_Base_def check_and_define_eq)
  then show ?thesis
    by (auto simp: extend_def cls_undefine_assign_def space_Base_def check_and_define_eq)
qed

text \<open>
  A body that declares \<open>x\<close> and assigns \<open>x = 5\<close> is rejected with the
  multiple-actions error; a body with \<^verbatim>\<open>DefineVar(1)\<close> and a plain assignment for the
  undeclared name \<open>y\<close> is rejected with the undeclared-variable error.
\<close>

theorem C2_declared_and_assigned_counterexample:
  "extend VarSpace_empty cls_declare_assign heap0 =
     Inl (MultipleActionsError ''x'', (space_Base, heap0))
   \<and> extend VarSpace_empty cls_define_undeclared heap0 =
     Inl (UndeclaredVariableError ''y'', (VarSpace_empty, heap0))"
  by (simp add: extend_def cls_declare_assign_def cls_define_undeclared_def VarSpace_empty_def
      space_Base_def check_and_define_eq)


text \<open>
  C3 (amended). When join or extend raises, the variable space under construction is
  not restored to what it was before the call: it keeps its entries, in their order,
  and its set of injected names, and after them it holds the entries inserted before
  the raise. For join (into a dict \<open>other\<close>) these are exactly the entries of \<open>other\<close>
  that come before the first name the space already holds, and the error is the
  duplicate-declaration error for that name and the target class; for extend they are
  declarations of the local variable space, and the error is the redeclaration, the
  undeclared-variable or the multiple-actions error of some name. (What a raise leaves
  of the default values of the variables is not part of this statement.)
\<close>

theorem C3_raise_keeps_insertions:
  "(distinct (map fst (vars other)) \<longrightarrow> join self other cls = Inl (e, self') \<longrightarrow>
      (\<exists>k ys v zs. vars other = ys @ (k, v) # zs
         \<and> (\<forall>p\<in>set ys. \<not> contains (vars self) (fst p))
         \<and> contains (vars self) k
         \<and> e = DuplicateDeclarationError k (qualname cls)
         \<and> vars self' = vars self @ ys
         \<and> injected_vars self' = injected_vars self))
   \<and> (extend self cls h = Inl (e, (self', h')) \<longrightarrow>
      (\<exists>k. e = RedeclarationError k \<or> e = UndeclaredVariableError k \<or> e = MultipleActionsError k)
      \<and> (\<exists>ys. vars self' = vars self @ ys
            \<and> set ys \<subseteq> {(k, a). (k, TestVarRef a) \<in> set (rfm_local_var_space cls)})
      \<and> injected_vars self' = injected_vars self)"
proof (intro conjI impI)
  assume d: "distinct (map fst (vars other))" and r: "join self other cls = Inl (e, self')"
  have "set (map fst (vars self)) \<inter> set (map fst (vars other)) \<noteq> {}"
  proof
    assume "set (map fst (vars self)) \<inter> set (map fst (vars other)) = {}"
    from join_return [OF d this, of cls] r show False by simp
  qed
  from join_raise [OF d this, of cls] obtain k ys v zs where
    *: "vars other = ys @ (k, v) # zs" "\<forall>p\<in>set ys. \<not> contains (vars self) (fst p)"
       "contains (vars self) k"
       "join self other cls =
          Inl (DuplicateDeclarationError k (qualname cls), self\<lparr>vars := vars self @ ys\<rparr>)"
    by blast
  from *(4) r have "e = DuplicateDeclarationError k (qualname cls)"
    "self' = self\<lparr>vars := vars self @ ys\<rparr>"
    by simp_all
  with *(1-3) show "\<exists>k ys v zs. vars other = ys @ (k, v) # zs
         \<and> (\<forall>p\<in>set ys. \<not> contains (vars self) (fst p))
         \<and> contains (vars self) k
         \<and> e = DuplicateDeclarationError k (qualname cls)
         \<and> vars self' = vars self @ ys
         \<and> injected_vars self' = injected_vars self"
    by (intro exI [of _ k] exI [of _ ys] exI [of _ v] exI [of _ zs]) simp
next
  assume r: "extend self cls h = Inl (e, (self', h'))"
  let ?loc = "rfm_local_var_space cls"
  have "(\<exists>k. e = RedeclarationError k \<or> e = UndeclaredVariableError k \<or> e = MultipleActionsError k)
      \<and> ((\<exists>ys. vars self' = vars self @ ys \<and> set ys \<subseteq> {(k, a). (k, TestVarRef a) \<in> set ?loc})
      \<and> injected_vars self' = injected_vars self)"
  proof (cases "extend_local ?loc (self, h)")
    case (Inl x)
    with r have x: "extend_local ?loc (self, h) = Inl (e, (self', h'))"
      by (simp add: extend_def)
    from extend_local_error [OF x] extend_local_frame [of ?loc self h e self' h'] x
    show ?thesis by blast
  next
    case (Inr st1)
    obtain self1 h1 where st1: "st1 = (self1, h1)" by (cases st1)
    from r Inr have x: "extend_class_dict ?loc (cls_dict cls) (self1, h1) = Inl (e, (self', h'))"
      by (simp add: extend_def st1)
    from extend_class_dict_frame [of ?loc "cls_dict cls" self1 h1 e self' h'] x
    have "self' = self1" by simp
    with extend_local_frame [of ?loc self h e self1 h1] Inr st1
      extend_class_dict_error [OF x]
    show ?thesis by blast
  qed
  then show "\<exists>k. e = RedeclarationError k \<or> e = UndeclaredVariableError k \<or> e = MultipleActionsError k"
    and "\<exists>ys. vars self' = vars self @ ys \<and> set ys \<subseteq> {(k, a). (k, TestVarRef a) \<in> set ?loc}"
    and "injected_vars self' = injected_vars self"
    by blast+
qed

text \<open>
  Joining a space with the names \<open>a\<close> and \<open>b\<close> into a space that holds \<open>b\<close>
  raises at \<open>b\<close>, when \<open>a\<close> has been inserted already: the space has changed.
\<close>

theorem C3_join_partial_insert_counterexample:
  "join space_b space_ab cls_T =
     Inl (DuplicateDeclarationError ''b'' ''T'', \<lparr>vars = [(''b'', 1), (''a'', 0)], injected_vars = {}\<rparr>)
   \<and> \<lparr>vars = [(''b'', 1), (''a'', 0)], injected_vars = {}\<rparr> \<noteq> space_b"
  by (simp add: join_def space_b_def space_ab_def cls_T_def)

theorem C3_raise_keeps_insertions_witness:
  "extend VarSpace_empty cls_declare_assign heap0 =
     Inl (MultipleActionsError ''x'', (space_Base, heap0))
   \<and> vars space_Base = vars VarSpace_empty @ [(''x'', 0)]
   \<and> injected_vars space_Base = injected_vars VarSpace_empty
   \<and> distinct (map fst (vars space_ab))
   \<and> join space_b space_ab cls_T =
     Inl (DuplicateDeclarationError ''b'' ''T'', \<lparr>vars = [(''b'', 1), (''a'', 0)], injected_vars = {}\<rparr>)
   \<and> injected_vars \<lparr>vars = [(''b'', 1), (''a'', 0)], injected_vars = {}\<rparr> = injected_vars space_b"
proof -
  have r: "extend VarSpace_empty cls_declare_assign heap0 =
     Inl (MultipleActionsError ''x'', (space_Base, heap0))"
    by (simp add: extend_def cls_declare_assign_def VarSpace_empty_def space_Base_def)
  have d: "distinct (map fst (vars space_ab))"
    by (simp add: space_ab_def)
  have j: "join space_b space_ab cls_T =
     Inl (DuplicateDeclarationError ''b'' ''T'', \<lparr>vars = [(''b'', 1), (''a'', 0)], injected_vars = {}\<rparr>)"
    by (simp add: join_def space_b_def space_ab_def cls_T_def)
  from C3_raise_keeps_insertions [of space_ab VarSpace_empty cls_declare_assign
      "MultipleActionsError ''x''" space_Base heap0 heap0] r
  have 1: "injected_vars space_Base = injected_vars VarSpace_empty" by blast
  from C3_raise_keeps_insertions [of space_ab space_b cls_T
      "DuplicateDeclarationError ''b'' ''T''" "\<lparr>vars = [(''b'', 1), (''a'', 0)], injected_vars = {}\<rparr>"] d j
  have 2: "injected_vars \<lparr>vars = [(''b'', 1), (''a'', 0)], injected_vars = {}\<rparr> = injected_vars space_b"
    by blast
  from r d j 1 2 show ?thesis by (simp add: space_Base_def VarSpace_empty_def)
qed

lemma extend_single_action:
  assumes "map_of (vars self) x = Some a" and "rfm_local_var_space cls = [(x, d)]"
    and "\<forall>a. d \<noteq> TestVarRef a" and "cls_dict cls = []"
  shows "extend self cls h = Inr (self, h(a := (h a)\<lparr>default_value := directive_default_value h d\<rparr>))"
  using assms by (cases d) (simp_all add: extend_def check_and_define_eq)

text \<open>
  C8. A TestVar constructed without the keyword \<open>value\<close> is not defined. After
  \<open>define(v)\<close> for a value \<open>v\<close> (any object but the private marker \<open>Undefined\<close>) the
  variable is defined and its default value is \<open>v\<close>; after \<open>undefine()\<close> it is not
  defined, whether it was defined before or not, and a second \<open>undefine()\<close> changes
  nothing. Hence, for a class whose body is the single entry \<^verbatim>\<open>DefineVar(v)\<close> for an
  inherited variable, extend returns with that variable defined and of default value
  \<open>v\<close>; and for a class whose body is the single entry \<^verbatim>\<open>UndefineVar()\<close>, with that
  variable not defined.
\<close>

theorem C8_define_undefine_roundtrip:
  "(map_of kw ''value'' = None \<longrightarrow> TestVar_init is_Field TypedField as kw = Inr t \<longrightarrow>
      \<not> is_defined t)
   \<and> is_defined (define_var (Obj v) t')
   \<and> default_value (define_var (Obj v) t') = Obj v
   \<and> \<not> is_defined (undefine (define_var (Obj v) t'))
   \<and> \<not> is_defined (undefine t')
   \<and> undefine (undefine t') = undefine t'
   \<and> (map_of (vars self) x = Some a \<longrightarrow> rfm_local_var_space cls = [(x, DefineVar (Obj v))] \<longrightarrow>
        cls_dict cls = [] \<longrightarrow>
        (\<exists>h1. extend self cls h = Inr (self, h1)
           \<and> default_value (h1 a) = Obj v \<and> is_defined (h1 a)))
   \<and> (map_of (vars self) x = Some a \<longrightarrow> rfm_local_var_space cls = [(x, UndefineVar)] \<longrightarrow>
        cls_dict cls = [] \<longrightarrow>
        (\<exists>h1. extend self cls h = Inr (self, h1) \<and> \<not> is_defined (h1 a)))"
proof -
  have init: "\<not> is_defined t"
    if "map_of kw ''value'' = None" "TestVar_init is_Field TypedField as kw = Inr t"
  proof -
    obtain ft kw1 where p1: "pop kw ''field'' TypedField = (ft, kw1)"
      by (cases "pop kw ''field'' TypedField")
    have "map_of kw1 ''value'' = None"
      using p1 that(1) by (auto simp: pop_def delete_conv split: option.splits)
    then have "pop kw1 ''value'' Undefined = (Undefined, kw1)"
      by (simp add: pop_def)
    with that(2) p1 have "default_value t = Undefined"
      by (auto simp: TestVar_init_def split: if_splits)
    then show ?thesis by (simp add: is_defined_def)
  qed
  have meth: "is_defined (define_var (Obj v) t')"
    "default_value (define_var (Obj v) t') = Obj v"
    "\<not> is_defined (undefine (define_var (Obj v) t'))"
    "\<not> is_defined (undefine t')"
    "undefine (undefine t') = undefine t'"
    by (simp_all add: is_defined_def define_var_def undefine_def)
  have def: "\<exists>h1. extend self cls h = Inr (self, h1)
           \<and> default_value (h1 a) = Obj v \<and> is_defined (h1 a)"
    if "map_of (vars self) x = Some a" "rfm_local_var_space cls = [(x, DefineVar (Obj v))]"
      "cls_dict cls = []"
    using extend_single_action [OF that(1,2) _ that(3), of h] by (simp add: is_defined_def)
  have undef: "\<exists>h1. extend self cls h = Inr (self, h1) \<and> \<not> is_defined (h1 a)"
    if "map_of (vars self) x = Some a" "rfm_local_var_space cls = [(x, UndefineVar)]"
      "cls_dict cls = []"
    using extend_single_action [OF that(1,2) _ that(3), of h] by (simp add: is_defined_def)
  from init meth def undef show ?thesis by blast
qed

theorem C8_define_undefine_roundtrip_witness:
  "TestVar_init is_Field0 (Obj 0) [] [] = Inr (var0\<lparr>default_value := Undefined\<rparr>)
   \<and> \<not> is_defined (var0\<lparr>default_value := Undefined\<rparr>)
   \<and> default_value (heap0 0) = Obj 1
   \<and> extend space_Base cls_Child heap0 = Inr (space_Base, heap0(0 := var0\<lparr>default_value := Obj 2\<rparr>))
   \<and> extend space_Base cls_Leaf (heap0(0 := var0\<lparr>default_value := Obj 2\<rparr>)) =
       Inr (space_Base, heap0(0 := var0\<lparr>default_value := Undefined\<rparr>))"
proof -
  have init: "TestVar_init is_Field0 (Obj 0) [] [] = Inr (var0\<lparr>default_value := Undefined\<rparr>)"
    by (simp add: TestVar_init_def pop_def is_Field0_def var0_def)
  from C8_define_undefine_roundtrip [where kw = "[]" and is_Field = is_Field0
      and TypedField = "Obj 0" and as = "[]" and t = "var0\<lparr>default_value := Undefined\<rparr>",
      THEN conjunct1] init
  have 1: "\<not> is_defined (var0\<lparr>default_value := Undefined\<rparr>)"
    by simp
  have 2: "extend space_Base cls_Child heap0 = Inr (space_Base, heap0(0 := var0\<lparr>default_value := Obj 2\<rparr>))"
    "extend space_Base cls_Leaf (heap0(0 := var0\<lparr>default_value := Obj 2\<rparr>)) =
       Inr (space_Base, heap0(0 := var0\<lparr>default_value := Undefined\<rparr>))"
    by (simp_all add: extend_def space_Base_def cls_Child_def cls_Leaf_def check_and_define_eq heap0_def)
  from init 1 2 show ?thesis by (simp add: heap0_def var0_def)
qed

text \<open>
  C1 (what the code does). Base declares \<open>x\<close> with the default value \<open>1\<close>; the variable
  space of Child, a subclass with the entry \<^verbatim>\<open>DefineVar(2)\<close> for \<open>x\<close>, is an empty space
  that joins the space of Base and is then extended. join stores the TestVar object of
  Base itself under \<open>x\<close>, and extend updates that object in place: afterwards the
  variable space of Base reads \<open>x\<close> with the default value \<open>2\<close>.
\<close>

theorem C1_define_in_descendant_changes_ancestor:
  "extend VarSpace_empty cls_Base heap0 = Inr (space_Base, heap0)
   \<and> join VarSpace_empty space_Base cls_Child = Inr space_Base
   \<and> extend space_Base cls_Child heap0 = Inr (space_Base, heap0(0 := var0\<lparr>default_value := Obj 2\<rparr>))
   \<and> items heap0 space_Base = [(''x'', var0)]
   \<and> default_value var0 = Obj 1
   \<and> items (heap0(0 := var0\<lparr>default_value := Obj 2\<rparr>)) space_Base =
       [(''x'', var0\<lparr>default_value := Obj 2\<rparr>)]"
  by (simp add: extend_def join_def items_def VarSpace_empty_def space_Base_def cls_Base_def
      cls_Child_def check_and_define_eq heap0_def var0_def)

subsection \<open>sanity\<close>

lemma sanity_keys_error:
  "sanity_keys ks il injected qn = Inl e \<Longrightarrow>
   \<exists>k\<in>set ks. k \<in> il \<and> k \<notin> injected \<and> e = NameClashError k qn"
  by (induction ks) (auto split: if_splits)

lemma sanity_keys_raise:
  "\<exists>k\<in>set ks. k \<in> il \<and> k \<notin> injected \<Longrightarrow> \<exists>e. sanity_keys ks il injected qn = Inl e"
  by (induction ks) auto

lemma sanity_keys_return:
  "\<forall>k\<in>set ks. k \<in> il \<longrightarrow> k \<in> injected \<Longrightarrow> sanity_keys ks il injected qn = Inr ()"
  by (induction ks) auto

text \<open>
  C6. sanity raises if and only if some name of the variable space is in the set of
  illegal names (the argument, or all the names \<^verbatim>\<open>dir(cls)\<close> lists when the argument is
  \<open>None\<close>) and not in the set of injected names; the error is then the ValueError "key
  already defined in class Q" for such a name and the target class. A variable space
  whose names have all been injected passes, whatever the illegal names are.
\<close>

theorem C6_sanity_raises_iff:
  "((\<exists>e. sanity self cls illegal_names = Inl e) \<longleftrightarrow>
      (\<exists>k\<in>set (map fst (vars self)).
          k \<in> default_illegal_names cls illegal_names \<and> k \<notin> injected_vars self))
   \<and> (\<forall>e. sanity self cls illegal_names = Inl e \<longrightarrow>
      (\<exists>k\<in>set (map fst (vars self)).
          k \<in> default_illegal_names cls illegal_names \<and> k \<notin> injected_vars self
          \<and> e = NameClashError k (qualname cls)))
   \<and> (set (map fst (vars self)) \<subseteq> injected_vars self \<longrightarrow> sanity self cls illegal_names = Inr ())
   \<and> default_illegal_names cls None = set (cls_dir cls)
   \<and> default_illegal_names cls (Some names) = names"
proof -
  let ?ks = "map fst (vars self)" and ?il = "default_illegal_names cls illegal_names"
  have err: "\<exists>k\<in>set ?ks. k \<in> ?il \<and> k \<notin> injected_vars self \<and> e = NameClashError k (qualname cls)"
    if "sanity self cls illegal_names = Inl e" for e
    using that unfolding sanity_def by (rule sanity_keys_error)
  have raise: "\<exists>e. sanity self cls illegal_names = Inl e"
    if "\<exists>k\<in>set ?ks. k \<in> ?il \<and> k \<notin> injected_vars self"
    using that unfolding sanity_def by (rule sanity_keys_raise)
  have ret: "sanity self cls illegal_names = Inr ()" if "set ?ks \<subseteq> injected_vars self"
    unfolding sanity_def by (rule sanity_keys_return) (use that in blast)
  have dflt: "default_illegal_names cls None = set (cls_dir cls)"
    "default_illegal_names cls (Some names) = names"
    by (simp_all add: default_illegal_names_def)
  from err raise ret dflt show ?thesis by blast
qed

theorem C6_sanity_raises_iff_witness:
  "sanity space_y cls_members None = Inl (NameClashError ''y'' ''T'')
   \<and> sanity space_x cls_members None = Inr ()
   \<and> sanity space_y cls_members (Some {''x''}) = Inr ()"
proof -
  have "set (map fst (vars space_x)) \<subseteq> injected_vars space_x"
    by (simp add: space_x_def)
  with C6_sanity_raises_iff [of space_x cls_members None]
  have "sanity space_x cls_members None = Inr ()" by blast
  then show ?thesis
    by (simp add: sanity_def default_illegal_names_def space_y_def cls_members_def)
qed

subsection \<open>inject\<close>

lemma setattr_cls_dict:
  "map_of (cls_dict (set_name_cls (setattr_cls cls n v) n v')) = (map_of (cls_dict cls))(n \<mapsto> v')"
  by (simp add: setattr_cls_def set_name_cls_def update_conv')

lemma setattr_cls_keys:
  "map fst (cls_dict (set_name_cls (setattr_cls cls n v) n v')) =
     (if n \<in> set (map fst (cls_dict cls)) then map fst (cls_dict cls)
      else map fst (cls_dict cls) @ [n])"
  by (simp add: setattr_cls_def set_name_cls_def update_keys)

lemma inject_items_Cons:
  assumes "Field_new F (field_type (h a)) (args (h a)) (kwargs (h a)) = Inr fld"
    and "Field_set_name F fld obj n = Inr fld'"
    and "is_defined (h a) \<longrightarrow> Field_validate F fld' (default_value (h a)) = None"
  shows "inject_items F h ((n, a) # rest) (self, obj, cls) =
     inject_items F h rest
       (self\<lparr>injected_vars := insert n (injected_vars self)\<rparr>,
        (if is_defined (h a)
         then obj\<lparr>obj_dict := AList.update n (default_value (h a)) (obj_dict obj)\<rparr> else obj),
        set_name_cls (setattr_cls cls n fld) n fld')"
  using assms by (simp add: setattr_obj_def Let_def)

text \<open>
  The error paths of one iteration: the object and the variable space are as before
  the iteration, and the name has not been recorded.
\<close>

lemma inject_items_raises:
  "Field_new F (field_type (h a)) (args (h a)) (kwargs (h a)) = Inl e \<Longrightarrow>
     inject_items F h ((n, a) # rest) (self, obj, cls) = Inl (e, (self, obj, cls))"
  "Field_new F (field_type (h a)) (args (h a)) (kwargs (h a)) = Inr fld \<Longrightarrow>
   Field_set_name F fld obj n = Inl e \<Longrightarrow>
     inject_items F h ((n, a) # rest) (self, obj, cls) = Inl (e, (self, obj, setattr_cls cls n fld))"
  "Field_new F (field_type (h a)) (args (h a)) (kwargs (h a)) = Inr fld \<Longrightarrow>
   Field_set_name F fld obj n = Inr fld' \<Longrightarrow> is_defined (h a) \<Longrightarrow>
   Field_validate F fld' (default_value (h a)) = Some e \<Longrightarrow>
     inject_items F h ((n, a) # rest) (self, obj, cls) =
       Inl (e, (self, obj, set_name_cls (setattr_cls cls n fld) n fld'))"
  by (simp_all add: setattr_obj_def Let_def)

lemma inject_items_step:
  "(\<exists>e0 cls1. inject_items F h ((n, a) # rest) (self, obj, cls) = Inl (e0, (self, obj, cls1)))
   \<or> (\<exists>obj1 cls1. inject_items F h ((n, a) # rest) (self, obj, cls) =
         inject_items F h rest (self\<lparr>injected_vars := insert n (injected_vars self)\<rparr>, obj1, cls1))"
proof (cases "Field_new F (field_type (h a)) (args (h a)) (kwargs (h a))")
  case (Inl e0)
  from inject_items_raises(1) [where h = h and a = a, OF Inl] show ?thesis by blast
next
  case new: (Inr fld)
  show ?thesis
  proof (cases "Field_set_name F fld obj n")
    case (Inl e0)
    from inject_items_raises(2) [where h = h and a = a, OF new Inl] show ?thesis by blast
  next
    case bound: (Inr fld')
    show ?thesis
    proof (cases "is_defined (h a) \<longrightarrow> Field_validate F fld' (default_value (h a)) = None")
      case True
      from inject_items_Cons [where h = h and a = a, OF new bound True] show ?thesis by blast
    next
      case False
      then obtain e0 where "is_defined (h a)" "Field_validate F fld' (default_value (h a)) = Some e0"
        by auto
      from inject_items_raises(3) [where h = h and a = a, OF new bound this] show ?thesis by blast
    qed
  qed
qed

lemma inject_items_frame:
  "inject_items F h xs (self, obj, cls) = Inl (e, (self', obj', cls'))
     \<or> inject_items F h xs (self, obj, cls) = Inr (self', obj', cls') \<Longrightarrow>
   vars self' = vars self \<and> injected_vars self \<subseteq> injected_vars self'"
proof (induction xs arbitrary: self obj cls)
  case Nil
  then show ?case by auto
next
  case (Cons x rest)
  obtain n a where x: "x = (n, a)" by (cases x)
  let ?self1 = "self\<lparr>injected_vars := insert n (injected_vars self)\<rparr>"
  from inject_items_step [of F h n a rest self obj cls]
  consider e0 cls1 where "inject_items F h (x # rest) (self, obj, cls) = Inl (e0, (self, obj, cls1))"
    | obj1 cls1 where "inject_items F h (x # rest) (self, obj, cls) =
         inject_items F h rest (?self1, obj1, cls1)"
    unfolding x by blast
  then show ?case
  proof cases
    case 1
    with Cons.prems show ?thesis by auto
  next
    case 2
    with Cons.prems have "inject_items F h rest (?self1, obj1, cls1) = Inl (e, (self', obj', cls'))
        \<or> inject_items F h rest (?self1, obj1, cls1) = Inr (self', obj', cls')"
      by simp
    from Cons.IH [OF this] show ?thesis by auto
  qed
qed

lemma inject_items_return:
  assumes "distinct (map fst xs)"
    and "\<forall>(n, a)\<in>set xs. \<exists>fld fld'.
           Field_new F (field_type (h a)) (args (h a)) (kwargs (h a)) = Inr fld
           \<and> (\<forall>ob. Field_set_name F fld ob n = Inr fld')
           \<and> (is_defined (h a) \<longrightarrow> Field_validate F fld' (default_value (h a)) = None)"
  shows "\<exists>self' obj' cls'. inject_items F h xs (self, obj, cls) = Inr (self', obj', cls')
     \<and> vars self' = vars self
     \<and> injected_vars self' = injected_vars self \<union> set (map fst xs)
     \<and> (\<forall>(n, a)\<in>set xs.
          (\<exists>fld fld'. Field_new F (field_type (h a)) (args (h a)) (kwargs (h a)) = Inr fld
             \<and> Field_set_name F fld obj n = Inr fld'
             \<and> map_of (cls_dict cls') n = Some fld')
          \<and> map_of (obj_dict obj') n =
            (if is_defined (h a) then Some (default_value (h a)) else map_of (obj_dict obj) n))
     \<and> (\<forall>n. n \<notin> set (map fst xs) \<longrightarrow>
          map_of (cls_dict cls') n = map_of (cls_dict cls) n
          \<and> map_of (obj_dict obj') n = map_of (obj_dict obj) n)
     \<and> map fst (cls_dict cls') =
          map fst (cls_dict cls) @ filter (\<lambda>n. n \<notin> set (map fst (cls_dict cls))) (map fst xs)"
  using assms
proof (induction xs arbitrary: self obj cls)
  case Nil
  then show ?case by simp
next
  case (Cons x rest)
  obtain n a where x: "x = (n, a)" by (cases x)
  from Cons.prems(2) obtain fld fld' where
    new: "Field_new F (field_type (h a)) (args (h a)) (kwargs (h a)) = Inr fld"
    and bound_all: "\<forall>ob. Field_set_name F fld ob n = Inr fld'"
    and valid: "is_defined (h a) \<longrightarrow> Field_validate F fld' (default_value (h a)) = None"
    by (auto simp: x)
  from bound_all have bound: "Field_set_name F fld obj n = Inr fld'" by simp
  let ?self1 = "self\<lparr>injected_vars := insert n (injected_vars self)\<rparr>"
  let ?obj1 = "if is_defined (h a)
         then obj\<lparr>obj_dict := AList.update n (default_value (h a)) (obj_dict obj)\<rparr> else obj"
  let ?cls1 = "set_name_cls (setattr_cls cls n fld) n fld'"
  have step: "inject_items F h (x # rest) (self, obj, cls) = inject_items F h rest (?self1, ?obj1, ?cls1)"
    unfolding x by (rule inject_items_Cons [where h = h and a = a, OF new bound valid])
  have fresh: "n \<notin> set (map fst rest)" and d: "distinct (map fst rest)"
    using Cons.prems(1) by (simp_all add: x)
  have ok: "\<forall>(n, a)\<in>set rest. \<exists>fld fld'.
           Field_new F (field_type (h a)) (args (h a)) (kwargs (h a)) = Inr fld
           \<and> (\<forall>ob. Field_set_name F fld ob n = Inr fld')
           \<and> (is_defined (h a) \<longrightarrow> Field_validate F fld' (default_value (h a)) = None)"
    using Cons.prems(2) by simp
  from Cons.IH [OF d ok, of ?self1 ?obj1 ?cls1] obtain self' obj' cls' where
    r: "inject_items F h rest (?self1, ?obj1, ?cls1) = Inr (self', obj', cls')"
    and v: "vars self' = vars ?self1"
    and i: "injected_vars self' = injected_vars ?self1 \<union> set (map fst rest)"
    and b: "\<forall>(m, b)\<in>set rest.
          (\<exists>fld fld'. Field_new F (field_type (h b)) (args (h b)) (kwargs (h b)) = Inr fld
             \<and> Field_set_name F fld ?obj1 m = Inr fld'
             \<and> map_of (cls_dict cls') m = Some fld')
          \<and> map_of (obj_dict obj') m =
            (if is_defined (h b) then Some (default_value (h b)) else map_of (obj_dict ?obj1) m)"
    and f: "\<forall>m. m \<notin> set (map fst rest) \<longrightarrow>
          map_of (cls_dict cls') m = map_of (cls_dict ?cls1) m
          \<and> map_of (obj_dict obj') m = map_of (obj_dict ?obj1) m"
    and k: "map fst (cls_dict cls') =
          map fst (cls_dict ?cls1) @ filter (\<lambda>m. m \<notin> set (map fst (cls_dict ?cls1))) (map fst rest)"
    by blast
  have obj1_n: "map_of (obj_dict ?obj1) n =
      (if is_defined (h a) then Some (default_value (h a)) else map_of (obj_dict obj) n)"
    by (simp add: update_conv')
  have obj1_other: "map_of (obj_dict ?obj1) m = map_of (obj_dict obj) m" if "m \<noteq> n" for m
    using that by (simp add: update_conv')
  have cls1_n: "map_of (cls_dict ?cls1) n = Some fld'"
    by (simp add: setattr_cls_dict)
  have cls1_other: "map_of (cls_dict ?cls1) m = map_of (cls_dict cls) m" if "m \<noteq> n" for m
    using that by (simp add: setattr_cls_dict)
  have c1: "vars self' = vars self"
    using v by simp
  have c2: "injected_vars self' = injected_vars self \<union> set (map fst (x # rest))"
    using i by (auto simp: x)
  have c3: "\<forall>(m, b)\<in>set (x # rest).
          (\<exists>fld fld'. Field_new F (field_type (h b)) (args (h b)) (kwargs (h b)) = Inr fld
             \<and> Field_set_name F fld obj m = Inr fld'
             \<and> map_of (cls_dict cls') m = Some fld')
          \<and> map_of (obj_dict obj') m =
            (if is_defined (h b) then Some (default_value (h b)) else map_of (obj_dict obj) m)"
  proof (intro ballI)
    fix p assume p: "p \<in> set (x # rest)"
    obtain m b where mb: "p = (m, b)" by (cases p)
    have "(\<exists>fld fld'. Field_new F (field_type (h b)) (args (h b)) (kwargs (h b)) = Inr fld
             \<and> Field_set_name F fld obj m = Inr fld'
             \<and> map_of (cls_dict cls') m = Some fld')
          \<and> map_of (obj_dict obj') m =
            (if is_defined (h b) then Some (default_value (h b)) else map_of (obj_dict obj) m)"
    proof (cases "p = x")
      case True
      then have eq: "m = n" "b = a" using mb x by simp_all
      have "map_of (cls_dict cls') n = Some fld'"
        using f fresh cls1_n by simp
      moreover have "map_of (obj_dict obj') n =
          (if is_defined (h a) then Some (default_value (h a)) else map_of (obj_dict obj) n)"
        using f fresh obj1_n by simp
      ultimately show ?thesis
        unfolding eq using new bound by blast
    next
      case False
      with p have in_rest: "(m, b) \<in> set rest" by (simp add: mb)
      then have "m \<in> set (map fst rest)" by force
      with fresh have neq: "m \<noteq> n" by blast
      from ok in_rest obtain g g' where
        g: "Field_new F (field_type (h b)) (args (h b)) (kwargs (h b)) = Inr g"
        "\<forall>ob. Field_set_name F g ob m = Inr g'"
        by blast
      from b in_rest obtain g1 g1' where
        g1: "Field_new F (field_type (h b)) (args (h b)) (kwargs (h b)) = Inr g1"
        "Field_set_name F g1 ?obj1 m = Inr g1'" "map_of (cls_dict cls') m = Some g1'"
        and o1: "map_of (obj_dict obj') m =
            (if is_defined (h b) then Some (default_value (h b)) else map_of (obj_dict ?obj1) m)"
        by blast
      from g g1 have "g1 = g" "g1' = g'" by simp_all
      with g g1 have "Field_set_name F g obj m = Inr g'" "map_of (cls_dict cls') m = Some g'"
        by simp_all
      moreover have "map_of (obj_dict obj') m =
            (if is_defined (h b) then Some (default_value (h b)) else map_of (obj_dict obj) m)"
        using o1 obj1_other [OF neq] by simp
      ultimately show ?thesis using g(1) by blast
    qed
    then show "case p of (m, b) \<Rightarrow>
          (\<exists>fld fld'. Field_new F (field_type (h b)) (args (h b)) (kwargs (h b)) = Inr fld
             \<and> Field_set_name F fld obj m = Inr fld'
             \<and> map_of (cls_dict cls') m = Some fld')
          \<and> map_of (obj_dict obj') m =
            (if is_defined (h b) then Some (default_value (h b)) else map_of (obj_dict obj) m)"
      by (simp add: mb)
  qed
  have c4: "\<forall>m. m \<notin> set (map fst (x # rest)) \<longrightarrow>
          map_of (cls_dict cls') m = map_of (cls_dict cls) m
          \<and> map_of (obj_dict obj') m = map_of (obj_dict obj) m"
    using f obj1_other cls1_other by (simp add: x)
  have flt: "filter (\<lambda>m. m \<notin> set (map fst (cls_dict ?cls1))) (map fst rest) =
             filter (\<lambda>m. m \<notin> set (map fst (cls_dict cls))) (map fst rest)"
    by (rule filter_cong) (use fresh in \<open>auto simp: setattr_cls_keys\<close>)
  have c5: "map fst (cls_dict cls') =
          map fst (cls_dict cls) @ filter (\<lambda>m. m \<notin> set (map fst (cls_dict cls))) (map fst (x # rest))"
    unfolding k flt by (simp add: x setattr_cls_keys)
  from r c1 c2 c3 c4 c5 show ?case
    unfolding step by blast
qed

text \<open>
  C7. inject reads the variables and never writes them: whether it returns or raises,
  the mapping of names to variables of the variable space is as before, and no injected
  name is lost. The three calls into the field classes can raise, and inject then
  raises at that variable. When, for every variable of the space, the field classes
  construct a descriptor, bind it to the variable's name, and the bound descriptor
  accepts the default value of the variable if the variable is defined, inject
  returns, and then: every name of the space is in the set of injected names, next to
  those that were there; for every variable the class holds under its name the
  descriptor constructed from the variable's field type and arguments and bound to the
  name; the object holds under that name the variable's default value if the variable
  is defined, and what it held before if not; attributes of other names are untouched
  in the class and in the object; and the names new to the class have been added to it
  in the order of the variable space.
\<close>

theorem C7_inject:
  "((inject F h self obj cls = Inl (e, (self', obj', cls'))
       \<or> inject F h self obj cls = Inr (self', obj', cls')) \<longrightarrow>
      vars self' = vars self \<and> injected_vars self \<subseteq> injected_vars self')
   \<and> (distinct (map fst (vars self)) \<longrightarrow>
       (\<forall>(n, a)\<in>set (vars self). \<exists>fld fld'.
           Field_new F (field_type (h a)) (args (h a)) (kwargs (h a)) = Inr fld
           \<and> (\<forall>ob. Field_set_name F fld ob n = Inr fld')
           \<and> (is_defined (h a) \<longrightarrow> Field_validate F fld' (default_value (h a)) = None)) \<longrightarrow>
       (\<exists>self1 obj1 cls1. inject F h self obj cls = Inr (self1, obj1, cls1)
          \<and> vars self1 = vars self
          \<and> injected_vars self1 = injected_vars self \<union> set (map fst (vars self))
          \<and> (\<forall>(n, a)\<in>set (vars self).
               (\<exists>fld fld'. Field_new F (field_type (h a)) (args (h a)) (kwargs (h a)) = Inr fld
                  \<and> Field_set_name F fld obj n = Inr fld'
                  \<and> map_of (cls_dict cls1) n = Some fld')
               \<and> map_of (obj_dict obj1) n =
                 (if is_defined (h a) then Some (default_value (h a)) else map_of (obj_dict obj) n))
          \<and> (\<forall>n. n \<notin> set (map fst (vars self)) \<longrightarrow>
               map_of (cls_dict cls1) n = map_of (cls_dict cls) n
               \<and> map_of (obj_dict obj1) n = map_of (obj_dict obj) n)
          \<and> map fst (cls_dict cls1) =
               map fst (cls_dict cls) @
               filter (\<lambda>n. n \<notin> set (map fst (cls_dict cls))) (map fst (vars self))))"
proof (intro conjI impI)
  assume "inject F h self obj cls = Inl (e, (self', obj', cls'))
       \<or> inject F h self obj cls = Inr (self', obj', cls')"
  then have "vars self' = vars self \<and> injected_vars self \<subseteq> injected_vars self'"
    unfolding inject_def by (rule inject_items_frame)
  then show "vars self' = vars self" and "injected_vars self \<subseteq> injected_vars self'"
    by simp_all
next
  assume "distinct (map fst (vars self))"
    and "\<forall>(n, a)\<in>set (vars self). \<exists>fld fld'.
           Field_new F (field_type (h a)) (args (h a)) (kwargs (h a)) = Inr fld
           \<and> (\<forall>ob. Field_set_name F fld ob n = Inr fld')
           \<and> (is_defined (h a) \<longrightarrow> Field_validate F fld' (default_value (h a)) = None)"
  then show "\<exists>self1 obj1 cls1. inject F h self obj cls = Inr (self1, obj1, cls1)
          \<and> vars self1 = vars self
          \<and> injected_vars self1 = injected_vars self \<union> set (map fst (vars self))
          \<and> (\<forall>(n, a)\<in>set (vars self).
               (\<exists>fld fld'. Field_new F (field_type (h a)) (args (h a)) (kwargs (h a)) = Inr fld
                  \<and> Field_set_name F fld obj n = Inr fld'
                  \<and> map_of (cls_dict cls1) n = Some fld')
               \<and> map_of (obj_dict obj1) n =
                 (if is_defined (h a) then Some (default_value (h a)) else map_of (obj_dict obj) n))
          \<and> (\<forall>n. n \<notin> set (map fst (vars self)) \<longrightarrow>
               map_of (cls_dict cls1) n = map_of (cls_dict cls) n
               \<and> map_of (obj_dict obj1) n = map_of (obj_dict obj) n)
          \<and> map fst (cls_dict cls1) =
               map fst (cls_dict cls) @
               filter (\<lambda>n. n \<notin> set (map fst (cls_dict cls))) (map fst (vars self))"
    unfolding inject_def by (rule inject_items_return)
qed

theorem C7_inject_witness:
  "inject Field0 heap01 space_xy obj0 cls_T =
     Inr (\<lparr>vars = [(''x'', 0), (''y'', 1)], injected_vars = {''x'', ''y''}\<rparr>,
          \<lparr>obj_dict = [(''x'', Obj 1)]\<rparr>,
          \<lparr>qualname = ''T'', cls_dict = [(''x'', Obj 200), (''y'', Obj 200)],
           cls_dir = [''x'', ''y''], rfm_local_var_space = []\<rparr>)"
proof -
  have d: "distinct (map fst (vars space_xy))"
    by (simp add: space_xy_def)
  have ok: "\<forall>(n, a)\<in>set (vars space_xy). \<exists>fld fld'.
      Field_new Field0 (field_type (heap01 a)) (args (heap01 a)) (kwargs (heap01 a)) = Inr fld
      \<and> (\<forall>ob. Field_set_name Field0 fld ob n = Inr fld')
      \<and> (is_defined (heap01 a) \<longrightarrow> Field_validate Field0 fld' (default_value (heap01 a)) = None)"
    by (simp add: space_xy_def heap01_def heap0_def var0_def Field0_def is_defined_def)
  from C7_inject [of Field0 heap01 space_xy obj0 cls_T] d ok
  obtain self1 obj1 cls1 where "inject Field0 heap01 space_xy obj0 cls_T = Inr (self1, obj1, cls1)"
    by blast
  then show ?thesis
    by (simp add: inject_def space_xy_def heap01_def heap0_def var0_def Field0_def is_defined_def
        setattr_obj_def setattr_cls_def set_name_cls_def obj0_def cls_T_def insert_commute)
qed

end
